theory Spec2Isabelle
  imports Complex_Main
begin

section \<open>Transcript chunking (transcript\_processor.py)\<close>

text \<open>
  Python floats are idealised as \<^typ>\<open>real\<close>: timestamps are only subtracted and
  compared.  A segment is the dictionary produced by the transcriber, with the keys
  \<^verbatim>\<open>start\<close>, \<^verbatim>\<open>end\<close> and \<^verbatim>\<open>text\<close>; the dataclass \<^verbatim>\<open>TranscriptChunk\<close> has an optional
  embedding vector.
\<close>

record Segment =
  seg_start :: real
  seg_end :: real
  seg_text :: string

record TranscriptChunk =
  video_id :: string
  start_time :: real
  end_time :: real
  chunk_text :: string
  embedding :: "real list option"

text \<open>\<^verbatim>\<open>str.strip()\<close>: leading and trailing whitespace removed.  A character is a code
  point below 256; the whitespace of \<^verbatim>\<open>str.isspace\<close> in that range is listed.\<close>

definition is_space :: "char \<Rightarrow> bool" where
  "is_space c = (c \<in> set [CHR 0x09, CHR 0x0A, CHR 0x0B, CHR 0x0C, CHR 0x0D,
                            CHR 0x1C, CHR 0x1D, CHR 0x1E, CHR 0x1F, CHR 0x20,
                            CHR 0x85, CHR 0xA0])"

definition strip :: "string \<Rightarrow> string" where
  "strip s = rev (dropWhile is_space (rev (dropWhile is_space s)))"

text \<open>\<^verbatim>\<open>" ".join(xs)\<close>\<close>

fun space_join :: "string list \<Rightarrow> string" where
  "space_join [] = []"
| "space_join [x] = x"
| "space_join (x # y # ys) = x @ '' '' @ space_join (y # ys)"

text \<open>The body of the \<^verbatim>\<open>for segment in segments\<close> loop of \<^verbatim>\<open>chunk_transcript\<close>, over the
  loop state \<open>(chunks, current_chunk_text, current_start_time)\<close>.\<close>

fun chunk_loop ::
  "string \<Rightarrow> real \<Rightarrow> Segment list \<Rightarrow> TranscriptChunk list \<times> string list \<times> real
     \<Rightarrow> TranscriptChunk list \<times> string list \<times> real" where
  "chunk_loop vid chunk_duration [] st = st"
| "chunk_loop vid chunk_duration (segment # rest) (chunks, current_chunk_text, current_start_time) =
     (if seg_end segment - current_start_time > chunk_duration \<and> current_chunk_text \<noteq> []
      then chunk_loop vid chunk_duration rest
             (chunks @ [\<lparr>video_id = vid, start_time = current_start_time,
                          end_time = seg_start segment,
                          chunk_text = space_join current_chunk_text,
                          embedding = None\<rparr>],
              [strip (seg_text segment)],
              seg_start segment)
      else chunk_loop vid chunk_duration rest
             (chunks, current_chunk_text @ [strip (seg_text segment)], current_start_time))"

definition chunk_transcript :: "Segment list \<Rightarrow> string \<Rightarrow> real \<Rightarrow> TranscriptChunk list" where
  "chunk_transcript segments vid chunk_duration =
     (case chunk_loop vid chunk_duration segments
             ([], [], if segments \<noteq> [] then seg_start (hd segments) else 0) of
        (chunks, current_chunk_text, current_start_time) \<Rightarrow>
          if current_chunk_text \<noteq> []
          then chunks @ [\<lparr>video_id = vid, start_time = current_start_time,
                            end_time = (if segments \<noteq> [] then seg_end (last segments) else 0),
                            chunk_text = space_join current_chunk_text,
                            embedding = None\<rparr>]
          else chunks)"

text \<open>Consecutive chunks touch: each chunk ends where the next one starts.\<close>

fun contiguous :: "TranscriptChunk list \<Rightarrow> bool" where
  "contiguous [] = True"
| "contiguous [c] = True"
| "contiguous (c # c' # cs) = (end_time c = start_time c' \<and> contiguous (c' # cs))"

text \<open>The chunks that a split of the segments into consecutive groups stands for: every
  chunk starts at the start of its first segment and carries the joined trimmed texts of its
  segments; it ends at the start of the first segment of the next group, and the last one
  ends at \<open>final_end\<close>.\<close>

fun chunks_of_groups :: "string \<Rightarrow> Segment list list \<Rightarrow> real \<Rightarrow> TranscriptChunk list" where
  "chunks_of_groups vid [] final_end = []"
| "chunks_of_groups vid [g] final_end =
     [\<lparr>video_id = vid, start_time = seg_start (hd g), end_time = final_end,
       chunk_text = space_join (map (\<lambda>s. strip (seg_text s)) g), embedding = None\<rparr>]"
| "chunks_of_groups vid (g # g' # gs) final_end =
     \<lparr>video_id = vid, start_time = seg_start (hd g), end_time = seg_start (hd g'),
      chunk_text = space_join (map (\<lambda>s. strip (seg_text s)) g), embedding = None\<rparr>
     # chunks_of_groups vid (g' # gs) final_end"

text \<open>Loop invariants of \<open>chunk_loop\<close>: the text gathered so far (closed chunks and the
  open buffer) is the space-joined list \<open>L\<close> of trimmed segment texts read so far; and the
  closed chunks are contiguous up to the start of the open one.\<close>

definition text_inv :: "string list \<Rightarrow> TranscriptChunk list \<times> string list \<times> real \<Rightarrow> bool" where
  "text_inv L st = (case st of (chunks, buf, cs) \<Rightarrow>
     (buf = [] \<longrightarrow> chunks = [] \<and> L = []) \<and> (buf \<noteq> [] \<longrightarrow> L \<noteq> []) \<and>
     space_join (map chunk_text chunks @ (if buf = [] then [] else [space_join buf])) = space_join L)"

definition link_inv :: "TranscriptChunk list \<times> string list \<times> real \<Rightarrow> bool" where
  "link_inv st = (case st of (chunks, buf, cs) \<Rightarrow>
     contiguous chunks \<and> (chunks \<noteq> [] \<longrightarrow> end_time (last chunks) = cs))"

text \<open>Concrete transcripts used below.\<close>

definition example_segments :: "Segment list" where
  "example_segments = [\<lparr>seg_start = 0, seg_end = 20, seg_text = ''a ''\<rparr>,
                       \<lparr>seg_start = 20, seg_end = 40, seg_text = '' b''\<rparr>,
                       \<lparr>seg_start = 41, seg_end = 50, seg_text = ''c''\<rparr>]"

definition nested_segments :: "Segment list" where
  "nested_segments = [\<lparr>seg_start = 0, seg_end = 100, seg_text = ''long''\<rparr>,
                      \<lparr>seg_start = 1, seg_end = 2, seg_text = ''b''\<rparr>]"

definition long_segments :: "Segment list" where
  "long_segments = [\<lparr>seg_start = 0, seg_end = 5, seg_text = '' intro''\<rparr>,
                    \<lparr>seg_start = 5, seg_end = 100, seg_text = ''long ''\<rparr>,
                    \<lparr>seg_start = 100, seg_end = 105, seg_text = ''outro''\<rparr>]"

section \<open>The search engine (search\_engine.py)\<close>

text \<open>Python exceptions that the engine can surface to its caller.\<close>

datatype py_error = TypeError | ValueError | AssertionError | IndexError | AttributeError

subsection \<open>The vector index library\<close>

text \<open>
  The engine delegates vector storage and ranking to the library class \<^verbatim>\<open>faiss.IndexFlatIP\<close>
  and builds its input with \<^verbatim>\<open>numpy.array\<close>.  Both are outside the repository; they are
  modelled here by their documented behaviour, with 32-bit floats idealised as reals:
  \<^item> \<^verbatim>\<open>IndexFlatIP(d)\<close> is an empty exact inner-product index of dimension \<open>d\<close>;
  \<^item> \<^verbatim>\<open>numpy.array(rows)\<close> of vectors of unequal lengths is rejected with \<^verbatim>\<open>ValueError\<close>
    (at the latest by the following \<^verbatim>\<open>astype('float32')\<close>);
  \<^item> \<^verbatim>\<open>add(x)\<close> asserts that the row length of \<open>x\<close> is \<open>d\<close> and appends the rows;
  \<^item> \<^verbatim>\<open>search(x, k)\<close> asserts that the query has length \<open>d\<close> and that \<open>k > 0\<close>, and returns
    exactly \<open>k\<close> (score, label) pairs by descending inner product; when fewer than \<open>k\<close>
    vectors are stored the missing places hold the label \<open>-1\<close> and the lowest float.
    Among equal scores the library's heap yields the later vector first (three one-hot
    vectors queried with the second one come out as 1, 2, 0); this is not insertion order,
    and no property below depends on the order among equal scores.
\<close>

record IndexFlatIP =
  ix_d :: nat
  ix_xb :: "real list list"

definition new_IndexFlatIP :: "nat \<Rightarrow> IndexFlatIP" where
  "new_IndexFlatIP n = \<lparr>ix_d = n, ix_xb = []\<rparr>"

definition np_array :: "real list list \<Rightarrow> py_error + real list list" where
  "np_array rows =
     (if list_all (\<lambda>r. length r = length (hd rows)) rows then Inr rows else Inl ValueError)"

definition index_add :: "IndexFlatIP \<Rightarrow> real list list \<Rightarrow> py_error + IndexFlatIP" where
  "index_add ix x =
     (if length (hd x) = ix_d ix then Inr (ix\<lparr>ix_xb := ix_xb ix @ x\<rparr>) else Inl AssertionError)"

definition inner_product :: "real list \<Rightarrow> real list \<Rightarrow> real" where
  "inner_product u v = sum_list (map2 (*) u v)"

definition FLT_LOWEST :: real where
  "FLT_LOWEST = - ((2 - 1 / 2 ^ 23) * 2 ^ 127)"

definition index_search :: "IndexFlatIP \<Rightarrow> real list \<Rightarrow> int \<Rightarrow> py_error + (real \<times> int) list" where
  "index_search ix q k =
     (if length q \<noteq> ix_d ix then Inl AssertionError
      else if k \<le> 0 then Inl AssertionError
      else Inr (take (nat k)
                  (sort_key (\<lambda>(score, label). - score)
                     (rev (zip (map (inner_product q) (ix_xb ix))
                               (map int [0..<length (ix_xb ix)]))))
                @ replicate (nat k - length (ix_xb ix)) (FLT_LOWEST, - 1)))"

subsection \<open>Engine state and result records\<close>

text \<open>The embedding model is an external collaborator: a function from text to a vector.\<close>

record engine =
  embedding_model :: "string \<Rightarrow> real list"
  chunks :: "TranscriptChunk list"
  index :: "IndexFlatIP option"
  dimension :: "nat option"

definition new_engine :: "(string \<Rightarrow> real list) \<Rightarrow> engine" where
  "new_engine model = \<lparr>embedding_model = model, chunks = [], index = None, dimension = None\<rparr>"

record SearchResult =
  res_video_id :: string
  res_start_time :: real
  res_end_time :: real
  res_text :: string
  similarity_score :: real
  timestamp_formatted :: string

record VideoSummary =
  sum_video_id :: string
  total_duration :: real
  chunk_count :: nat
  duration_formatted :: string

subsection \<open>Formatting\<close>

fun decimal :: "nat \<Rightarrow> string" where
  "decimal n =
     (if n < 10 then [char_of (48 + n)] else decimal (n div 10) @ [char_of (48 + n mod 10)])"

text \<open>The format specification \<^verbatim>\<open>:02d\<close>: at least two characters, zero-padded, the sign
  counted in the width.\<close>

definition format_02d :: "int \<Rightarrow> string" where
  "format_02d i =
     (if 0 \<le> i then (if i < 10 then CHR ''0'' # decimal (nat i) else decimal (nat i))
      else CHR ''-'' # decimal (nat (- i)))"

definition format_timestamp :: "real \<Rightarrow> string" where
  "format_timestamp seconds =
     format_02d \<lfloor>seconds / 60\<rfloor> @ '':'' @ format_02d \<lfloor>seconds - 60 * of_int \<lfloor>seconds / 60\<rfloor>\<rfloor>"

subsection \<open>Operations\<close>

text \<open>Every operation returns its outcome (a value or the exception raised) together with
  the engine state it leaves behind.\<close>

definition valid_chunks_of :: "TranscriptChunk list \<Rightarrow> TranscriptChunk list" where
  "valid_chunks_of cs = filter (\<lambda>chunk. embedding chunk \<noteq> None) cs"

definition add_chunks :: "engine \<Rightarrow> TranscriptChunk list \<Rightarrow> (py_error + unit) \<times> engine" where
  "add_chunks e cs =
     (let e1 = e\<lparr>chunks := chunks e @ cs\<rparr>;
          valid_chunks = valid_chunks_of cs;
          e2 = (if index e1 = None \<and> cs \<noteq> [] \<and> valid_chunks \<noteq> []
                then e1\<lparr>index := Some (new_IndexFlatIP (length (the (embedding (hd valid_chunks))))),
                        dimension := Some (length (the (embedding (hd valid_chunks))))\<rparr>
                else e1)
      in if cs \<noteq> [] \<and> valid_chunks \<noteq> []
         then (case np_array (map (\<lambda>chunk. the (embedding chunk)) valid_chunks) of
                 Inl err \<Rightarrow> (Inl err, e2)
               | Inr embeddings \<Rightarrow>
                   (case index e2 of
                      None \<Rightarrow> (Inl AttributeError, e2)
                    | Some ix \<Rightarrow>
                        (case index_add ix embeddings of
                           Inl err \<Rightarrow> (Inl err, e2)
                         | Inr ix' \<Rightarrow> (Inr (), e2\<lparr>index := Some ix'\<rparr>))))
         else (Inr (), e2))"

text \<open>\<^verbatim>\<open>xs[i]\<close> for a Python list: a negative index counts from the end.\<close>

definition py_nth :: "'a list \<Rightarrow> int \<Rightarrow> py_error + 'a" where
  "py_nth xs i =
     (if 0 \<le> i \<and> i < int (length xs) then Inr (xs ! nat i)
      else if i < 0 \<and> 0 \<le> int (length xs) + i then Inr (xs ! nat (int (length xs) + i))
      else Inl IndexError)"

definition make_result :: "TranscriptChunk \<Rightarrow> real \<Rightarrow> SearchResult" where
  "make_result chunk score =
     \<lparr>res_video_id = video_id chunk, res_start_time = start_time chunk,
      res_end_time = end_time chunk, res_text = chunk_text chunk,
      similarity_score = score, timestamp_formatted = format_timestamp (start_time chunk)\<rparr>"

text \<open>The loop \<^verbatim>\<open>for score, idx in zip(scores[0], indices[0])\<close>.\<close>

fun collect_results :: "TranscriptChunk list \<Rightarrow> (real \<times> int) list \<Rightarrow> py_error + SearchResult list" where
  "collect_results cs [] = Inr []"
| "collect_results cs ((score, idx) # rest) =
     (case py_nth cs idx of
        Inl err \<Rightarrow> Inl err
      | Inr chunk \<Rightarrow>
          (case collect_results cs rest of
             Inl err \<Rightarrow> Inl err
           | Inr results \<Rightarrow> Inr (make_result chunk score # results)))"

definition search :: "engine \<Rightarrow> string \<Rightarrow> int \<Rightarrow> (py_error + SearchResult list) \<times> engine" where
  "search e query top_k =
     (if chunks e = [] \<or> index e = None then (Inr [], e)
      else (case index_search (the (index e)) (embedding_model e query) top_k of
              Inl err \<Rightarrow> (Inl err, e)
            | Inr hits \<Rightarrow> (collect_results (chunks e) hits, e)))"

definition get_video_summary :: "engine \<Rightarrow> string \<Rightarrow> VideoSummary option \<times> engine" where
  "get_video_summary e vid =
     (let video_chunks = filter (\<lambda>chunk. video_id chunk = vid) (chunks e)
      in if video_chunks = [] then (None, e)
         else (Some \<lparr>sum_video_id = vid,
                      total_duration = fold max (tl (map end_time video_chunks))
                                                (hd (map end_time video_chunks)),
                      chunk_count = length video_chunks,
                      duration_formatted =
                        format_timestamp (fold max (tl (map end_time video_chunks))
                                                   (hd (map end_time video_chunks)))\<rparr>, e))"

text \<open>\<^verbatim>\<open>list(set(...))\<close>: the order of the returned list is not determined, so the result is
  modelled as the set of ids.\<close>

definition get_all_videos :: "engine \<Rightarrow> string set \<times> engine" where
  "get_all_videos e = (set (map video_id (chunks e)), e)"

definition search_by_video ::
  "engine \<Rightarrow> string \<Rightarrow> string \<Rightarrow> int \<Rightarrow> (py_error + SearchResult list) \<times> engine" where
  "search_by_video e vid query top_k =
     (let video_chunks = filter (\<lambda>chunk. video_id chunk = vid) (chunks e)
      in if video_chunks = [] then (Inr [], e)
         else (case dimension e of
                 None \<Rightarrow> (Inl TypeError, e)
               | Some n \<Rightarrow>
                   (case (if valid_chunks_of video_chunks \<noteq> []
                          then (case np_array (map (\<lambda>chunk. the (embedding chunk))
                                                 (valid_chunks_of video_chunks)) of
                                  Inl err \<Rightarrow> Inl err
                                | Inr embeddings \<Rightarrow> index_add (new_IndexFlatIP n) embeddings)
                          else Inr (new_IndexFlatIP n)) of
                      Inl err \<Rightarrow> (Inl err, e)
                    | Inr temp_index \<Rightarrow>
                        (case index_search temp_index (embedding_model e query) top_k of
                           Inl err \<Rightarrow> (Inl err, e)
                         | Inr hits \<Rightarrow> (collect_results video_chunks hits, e)))))"

subsection \<open>Reachable engine states\<close>

inductive reachable :: "engine \<Rightarrow> bool" where
  reachable_new: "reachable (new_engine model)"
| reachable_add: "reachable e \<Longrightarrow> reachable (snd (add_chunks e cs))"

text \<open>The scoped query as the specification words it: filter the corpus to the video first,
  insert exactly those chunks into a fresh engine, and run the global search.\<close>

definition query_scoped_spec ::
  "engine \<Rightarrow> string \<Rightarrow> string \<Rightarrow> int \<Rightarrow> py_error + SearchResult list" where
  "query_scoped_spec e vid query top_k =
     fst (search (snd (add_chunks (new_engine (embedding_model e))
                         (filter (\<lambda>chunk. video_id chunk = vid) (chunks e))))
            query top_k)"

text \<open>Concrete chunks and engines used below.\<close>

definition one_hot_model :: "string \<Rightarrow> real list" where
  "one_hot_model query = [0, 1, 0]"

definition mock_chunks :: "TranscriptChunk list" where
  "mock_chunks =
     [\<lparr>video_id = ''video_001'', start_time = 0, end_time = 30,
       chunk_text = ''machine learning basics'', embedding = Some [1, 0, 0]\<rparr>,
      \<lparr>video_id = ''video_001'', start_time = 30, end_time = 60,
       chunk_text = ''linear regression'', embedding = Some [0, 1, 0]\<rparr>,
      \<lparr>video_id = ''video_001'', start_time = 60, end_time = 90,
       chunk_text = ''classification problems'', embedding = Some [0, 0, 1]\<rparr>]"

definition mock_engine :: engine where
  "mock_engine = snd (add_chunks (new_engine one_hot_model) mock_chunks)"

definition unembedded_chunk :: TranscriptChunk where
  "unembedded_chunk = \<lparr>video_id = ''video_002'', start_time = 0, end_time = 30,
                        chunk_text = ''deep learning'', embedding = None\<rparr>"

definition embedded_chunk :: TranscriptChunk where
  "embedded_chunk = \<lparr>video_id = ''video_001'', start_time = 30, end_time = 60,
                      chunk_text = ''linear regression'', embedding = Some [0, 1, 0]\<rparr>"

definition short_chunk :: TranscriptChunk where
  "short_chunk = \<lparr>video_id = ''video_003'', start_time = 0, end_time = 30,
                   chunk_text = ''word embeddings'', embedding = Some [1, 0]\<rparr>"

definition misaligned_engine :: engine where
  "misaligned_engine = snd (add_chunks (new_engine one_hot_model) [unembedded_chunk, embedded_chunk])"

definition mixed_engine :: engine where
  "mixed_engine = snd (add_chunks (new_engine one_hot_model) [embedded_chunk, unembedded_chunk])"

definition unembedded_engine :: engine where
  "unembedded_engine = snd (add_chunks (new_engine one_hot_model) [unembedded_chunk])"


section \<open>Properties of the chunker\<close>

subsection \<open>Joining and the loop\<close>

lemma space_join_snoc: "xs \<noteq> [] \<Longrightarrow> space_join (xs @ [y]) = space_join xs @ '' '' @ y"
  by (induction xs rule: space_join.induct) auto

lemma space_join_snoc_sep:
  "space_join (xs @ [a @ '' '' @ b]) = space_join (xs @ [a]) @ '' '' @ b"
  by (cases "xs = []") (simp_all add: space_join_snoc)

lemma chunk_loop_buffer_nonempty:
  "segs \<noteq> [] \<or> fst (snd st) \<noteq> [] \<Longrightarrow> fst (snd (chunk_loop vid cd segs st)) \<noteq> []"
  by (induction vid cd segs st rule: chunk_loop.induct) auto

lemma chunk_loop_append:
  "chunk_loop vid cd (xs @ ys) st = chunk_loop vid cd ys (chunk_loop vid cd xs st)"
  by (induction vid cd xs st rule: chunk_loop.induct) auto

lemma chunk_loop_prefix:
  "chunk_loop vid cd segs (ch0 @ ch, buf, cs) =
     (case chunk_loop vid cd segs (ch, buf, cs) of (ch', buf', cs') \<Rightarrow> (ch0 @ ch', buf', cs'))"
  by (induction vid cd segs "(ch, buf, cs)" arbitrary: ch buf cs rule: chunk_loop.induct) auto

lemma chunk_loop_start_cases:
  "snd (snd (chunk_loop vid cd segs st)) = snd (snd st)
     \<or> snd (snd (chunk_loop vid cd segs st)) \<in> seg_start ` set segs"
  by (induction vid cd segs st rule: chunk_loop.induct) auto

lemma chunk_transcript_unfold:
  assumes "segs \<noteq> []"
    and "chunk_loop vid cd segs ([], [], seg_start (hd segs)) = (ch, buf, cs)"
  shows "chunk_transcript segs vid cd =
           ch @ [\<lparr>video_id = vid, start_time = cs, end_time = seg_end (last segs),
                   chunk_text = space_join buf, embedding = None\<rparr>]"
  using assms chunk_loop_buffer_nonempty[of segs "([], [], seg_start (hd segs))" vid cd]
  by (simp add: chunk_transcript_def)

lemma sorted_map_le_last:
  "sorted (map f xs) \<Longrightarrow> x \<in> set xs \<Longrightarrow> f x \<le> f (last xs)"
  by (induction xs) (auto split: if_splits)

lemma contiguous_snoc:
  "contiguous cs \<Longrightarrow> (cs \<noteq> [] \<Longrightarrow> end_time (last cs) = start_time c) \<Longrightarrow> contiguous (cs @ [c])"
  by (induction cs rule: contiguous.induct) auto

lemma contiguous_nth:
  "contiguous cs \<Longrightarrow> Suc i < length cs \<Longrightarrow> end_time (cs ! i) = start_time (cs ! Suc i)"
proof (induction cs arbitrary: i rule: contiguous.induct)
  case (3 c c' cs)
  then show ?case by (cases i) auto
qed auto

lemma chunk_loop_link_inv:
  "link_inv st \<Longrightarrow> link_inv (chunk_loop vid cd segs st)"
proof (induction segs arbitrary: st)
  case Nil
  then show ?case by simp
next
  case (Cons s segs)
  obtain chs buf cs where st: "st = (chs, buf, cs)" by (cases st)
  show ?case
  proof (cases "seg_end s - cs > cd \<and> buf \<noteq> []")
    case True
    let ?c = "\<lparr>video_id = vid, start_time = cs, end_time = seg_start s,
                         chunk_text = space_join buf, embedding = None\<rparr>"
    from Cons.prems st have "contiguous (chs @ [?c])"
      by (intro contiguous_snoc) (auto simp: link_inv_def)
    then have "link_inv (chs @ [?c], [strip (seg_text s)], seg_start s)"
      by (simp add: link_inv_def)
    from Cons.IH[OF this] True st show ?thesis by simp
  next
    case False
    from Cons.prems st have "link_inv (chs, buf @ [strip (seg_text s)], cs)"
      by (simp add: link_inv_def)
    from Cons.IH[OF this] False st show ?thesis by auto
  qed
qed

lemma chunk_loop_text_inv:
  "text_inv L st \<Longrightarrow> text_inv (L @ map (\<lambda>s. strip (seg_text s)) segs) (chunk_loop vid cd segs st)"
proof (induction segs arbitrary: L st)
  case Nil
  then show ?case by simp
next
  case (Cons s segs)
  obtain chs buf cs where st: "st = (chs, buf, cs)" by (cases st)
  let ?t = "strip (seg_text s)"
  show ?case
  proof (cases "seg_end s - cs > cd \<and> buf \<noteq> []")
    case True
    with Cons.prems st have L: "L \<noteq> []"
      and eq: "space_join (map chunk_text chs @ [space_join buf]) = space_join L"
      by (auto simp: text_inv_def)
    have "text_inv (L @ [?t])
            (chs @ [\<lparr>video_id = vid, start_time = cs, end_time = seg_start s,
                         chunk_text = space_join buf, embedding = None\<rparr>], [?t], seg_start s)"
      using L eq space_join_snoc[of "map chunk_text chs @ [space_join buf]" ?t]
      by (simp add: text_inv_def space_join_snoc)
    from Cons.IH[OF this] True st show ?thesis by simp
  next
    case False
    have "text_inv (L @ [?t]) (chs, buf @ [?t], cs)"
    proof (cases "buf = []")
      case True
      with Cons.prems st show ?thesis by (simp add: text_inv_def)
    next
      case nonempty: False
      with Cons.prems st have L: "L \<noteq> []"
        and eq: "space_join (map chunk_text chs @ [space_join buf]) = space_join L"
        by (auto simp: text_inv_def)
      show ?thesis
        using nonempty L eq space_join_snoc_sep[of "map chunk_text chs" "space_join buf" ?t]
        by (simp add: text_inv_def space_join_snoc)
    qed
    from Cons.IH[OF this] False st show ?thesis by auto
  qed
qed

lemma chunk_loop_ordered:
  assumes "\<forall>c \<in> set (fst st). start_time c \<le> end_time c"
    and "\<forall>s \<in> set segs. snd (snd st) \<le> seg_start s"
    and "sorted (map seg_start segs)"
  shows "\<forall>c \<in> set (fst (chunk_loop vid cd segs st)). start_time c \<le> end_time c"
  using assms
proof (induction vid cd segs st rule: chunk_loop.induct)
  case (1 vid cd st)
  then show ?case by simp
next
  case (2 vid cd s rest chs buf cs)
  show ?case
  proof (cases "seg_end s - cs > cd \<and> buf \<noteq> []")
    case True
    with "2.IH"(1)[OF True] "2.prems" show ?thesis by auto
  next
    case False
    with "2.IH"(2)[OF False] "2.prems" show ?thesis by auto
  qed
qed

subsection \<open>Contiguity\<close>

text \<open>The loop closes one group of consecutive segments after another: its state always
  stands for a split of the segments read so far into closed groups and one open group.\<close>

lemma chunks_of_groups_snoc:
  "chunks_of_groups vid (gs @ [g]) final_end =
     chunks_of_groups vid gs (seg_start (hd g))
     @ [\<lparr>video_id = vid, start_time = seg_start (hd g), end_time = final_end,
          chunk_text = space_join (map (\<lambda>s. strip (seg_text s)) g), embedding = None\<rparr>]"
proof (induction vid gs final_end rule: chunks_of_groups.induct)
  case (3 vid g0 g1 gs final_end)
  then show ?case by (cases gs) simp_all
qed simp_all

lemma chunk_loop_groups:
  assumes "g \<noteq> []" and "[] \<notin> set gs"
  shows "\<exists>gs' g'. concat gs @ g @ segs = concat gs' @ g' \<and> [] \<notin> set gs' \<and> g' \<noteq> []
           \<and> chunk_loop vid cd segs
                (chunks_of_groups vid gs (seg_start (hd g)),
                 map (\<lambda>s. strip (seg_text s)) g, seg_start (hd g))
              = (chunks_of_groups vid gs' (seg_start (hd g')),
                 map (\<lambda>s. strip (seg_text s)) g', seg_start (hd g'))"
  using assms
proof (induction segs arbitrary: gs g)
  case Nil
  then show ?case by auto
next
  case (Cons s segs)
  show ?case
  proof (cases "seg_end s - seg_start (hd g) > cd")
    case True
    have g1: "[s] \<noteq> []" and gs1: "[] \<notin> set (gs @ [g])"
      using Cons.prems by auto
    from Cons.IH[OF g1 gs1] obtain gs' g' where
      c: "concat (gs @ [g]) @ [s] @ segs = concat gs' @ g'" and n: "[] \<notin> set gs'" "g' \<noteq> []"
      and l: "chunk_loop vid cd segs
                (chunks_of_groups vid (gs @ [g]) (seg_start (hd [s])),
                 map (\<lambda>s. strip (seg_text s)) [s], seg_start (hd [s]))
              = (chunks_of_groups vid gs' (seg_start (hd g')),
                 map (\<lambda>s. strip (seg_text s)) g', seg_start (hd g'))"
      by blast
    have "chunk_loop vid cd (s # segs)
                (chunks_of_groups vid gs (seg_start (hd g)),
                 map (\<lambda>s. strip (seg_text s)) g, seg_start (hd g))
          = chunk_loop vid cd segs
                (chunks_of_groups vid (gs @ [g]) (seg_start s), [strip (seg_text s)], seg_start s)"
      using True Cons.prems(1) by (simp add: chunks_of_groups_snoc)
    with l c n show ?thesis by (intro exI[of _ gs'] exI[of _ g']) simp
  next
    case False
    have g1: "g @ [s] \<noteq> []" by simp
    from Cons.IH[OF g1 Cons.prems(2)] obtain gs' g' where
      c: "concat gs @ (g @ [s]) @ segs = concat gs' @ g'" and n: "[] \<notin> set gs'" "g' \<noteq> []"
      and l: "chunk_loop vid cd segs
                (chunks_of_groups vid gs (seg_start (hd (g @ [s]))),
                 map (\<lambda>s. strip (seg_text s)) (g @ [s]), seg_start (hd (g @ [s])))
              = (chunks_of_groups vid gs' (seg_start (hd g')),
                 map (\<lambda>s. strip (seg_text s)) g', seg_start (hd g'))"
      by blast
    have "chunk_loop vid cd (s # segs)
                (chunks_of_groups vid gs (seg_start (hd g)),
                 map (\<lambda>s. strip (seg_text s)) g, seg_start (hd g))
          = chunk_loop vid cd segs
                (chunks_of_groups vid gs (seg_start (hd g)),
                 map (\<lambda>s. strip (seg_text s)) g @ [strip (seg_text s)], seg_start (hd g))"
      using False by simp
    with l c n Cons.prems(1) show ?thesis by (intro exI[of _ gs'] exI[of _ g']) simp
  qed
qed

lemma chunk_transcript_groups:
  assumes "segments \<noteq> []"
  shows "\<exists>groups. concat groups = segments \<and> [] \<notin> set groups
           \<and> chunk_transcript segments vid chunk_duration
               = chunks_of_groups vid groups (seg_end (last segments))"
proof -
  from assms obtain s rest where seg: "segments = s # rest" by (cases segments) auto
  from chunk_loop_groups[of "[s]" "[]" rest vid chunk_duration]
  obtain gs' g' where c: "s # rest = concat gs' @ g'" and n: "[] \<notin> set gs'" "g' \<noteq> []"
    and l: "chunk_loop vid chunk_duration rest ([], [strip (seg_text s)], seg_start s)
              = (chunks_of_groups vid gs' (seg_start (hd g')),
                 map (\<lambda>s. strip (seg_text s)) g', seg_start (hd g'))"
    by auto
  have "chunk_loop vid chunk_duration segments ([], [], seg_start (hd segments))
          = (chunks_of_groups vid gs' (seg_start (hd g')),
             map (\<lambda>s. strip (seg_text s)) g', seg_start (hd g'))"
    using l seg by simp
  from chunk_transcript_unfold[OF assms this]
  have "chunk_transcript segments vid chunk_duration
          = chunks_of_groups vid (gs' @ [g']) (seg_end (last segments))"
    by (simp add: chunks_of_groups_snoc)
  with c n seg show ?thesis by (intro exI[of _ "gs' @ [g']"]) simp
qed

text \<open>
  C5.  For a non-empty segment sequence, every chunk produced by \<open>chunk_transcript\<close> ends
  where the next chunk starts, at least one chunk is produced, and the last chunk ends at the
  end of the last segment.  More precisely the segments split into consecutive non-empty
  groups, one per chunk: a chunk starts at the start of the first segment of its group and
  ends at the start of the first segment of the next group (the segment that caused the
  flush), and the last chunk ends at the end of the last segment.  (The order of the start
  times plays no part.)
\<close>

theorem chunk_transcript_contiguous:
  assumes "segments \<noteq> []"
  shows "(\<forall>i. Suc i < length (chunk_transcript segments vid chunk_duration) \<longrightarrow>
            end_time (chunk_transcript segments vid chunk_duration ! i)
              = start_time (chunk_transcript segments vid chunk_duration ! Suc i))
         \<and> chunk_transcript segments vid chunk_duration \<noteq> []
         \<and> end_time (last (chunk_transcript segments vid chunk_duration)) = seg_end (last segments)
         \<and> (\<exists>groups. concat groups = segments \<and> [] \<notin> set groups
               \<and> chunk_transcript segments vid chunk_duration
                   = chunks_of_groups vid groups (seg_end (last segments)))"
proof -
  let ?init = "([], [], seg_start (hd segments)) :: TranscriptChunk list \<times> string list \<times> real"
  obtain chs buf cs where r: "chunk_loop vid chunk_duration segments ?init = (chs, buf, cs)"
    by (cases "chunk_loop vid chunk_duration segments ?init")
  have "link_inv ?init" by (simp add: link_inv_def)
  from chunk_loop_link_inv[OF this, of vid chunk_duration segments] r
  have c: "contiguous chs" and l: "chs \<noteq> [] \<Longrightarrow> end_time (last chs) = cs"
    by (auto simp: link_inv_def)
  let ?final = "\<lparr>video_id = vid, start_time = cs, end_time = seg_end (last segments),
                   chunk_text = space_join buf, embedding = None\<rparr>"
  have ct: "chunk_transcript segments vid chunk_duration = chs @ [?final]"
    using chunk_transcript_unfold[OF assms r] .
  have "contiguous (chs @ [?final])"
    using c l by (intro contiguous_snoc) auto
  then have "(\<forall>i. Suc i < length (chunk_transcript segments vid chunk_duration) \<longrightarrow>
            end_time (chunk_transcript segments vid chunk_duration ! i)
              = start_time (chunk_transcript segments vid chunk_duration ! Suc i))
         \<and> chunk_transcript segments vid chunk_duration \<noteq> []
         \<and> end_time (last (chunk_transcript segments vid chunk_duration)) = seg_end (last segments)"
    unfolding ct using contiguous_nth by auto
  with chunk_transcript_groups[OF assms, of vid chunk_duration] show ?thesis by blast
qed

theorem chunk_transcript_contiguous_witness:
  "example_segments \<noteq> []
   \<and> length (chunk_transcript example_segments ''v'' 30) = 2
   \<and> end_time (chunk_transcript example_segments ''v'' 30 ! 0)
       = start_time (chunk_transcript example_segments ''v'' 30 ! Suc 0)
   \<and> end_time (chunk_transcript example_segments ''v'' 30 ! 0) = seg_start (example_segments ! 1)
   \<and> end_time (last (chunk_transcript example_segments ''v'' 30)) = seg_end (last example_segments)
   \<and> chunk_transcript example_segments ''v'' 30
       = chunks_of_groups ''v''
           [[example_segments ! 0], [example_segments ! 1, example_segments ! 2]]
           (seg_end (last example_segments))"
proof -
  have ne: "example_segments \<noteq> []" by (simp add: example_segments_def)
  have len: "length (chunk_transcript example_segments ''v'' 30) = 2"
    by (simp add: example_segments_def chunk_transcript_def)
  have grp: "chunk_transcript example_segments ''v'' 30
       = chunks_of_groups ''v''
           [[example_segments ! 0], [example_segments ! 1, example_segments ! 2]]
           (seg_end (last example_segments))"
    by (simp add: example_segments_def chunk_transcript_def)
  have flushed: "end_time (chunk_transcript example_segments ''v'' 30 ! 0)
                   = seg_start (example_segments ! 1)"
    by (simp add: example_segments_def chunk_transcript_def)
  from chunk_transcript_contiguous[OF ne, of "''v''" 30] ne len grp flushed show ?thesis by simp
qed

subsection \<open>Text fidelity\<close>

text \<open>
  C6.  Joining the texts of the chs of \<open>chunk_transcript\<close> with single spaces gives the
  trimmed segment texts joined with single spaces, for every segment sequence.
\<close>

theorem chunk_transcript_text_fidelity:
  "space_join (map chunk_text (chunk_transcript segments vid chunk_duration))
     = space_join (map (\<lambda>s. strip (seg_text s)) segments)"
proof -
  let ?init = "([], [], if segments \<noteq> [] then seg_start (hd segments) else 0)
                 :: TranscriptChunk list \<times> string list \<times> real"
  have "text_inv [] ?init" by (simp add: text_inv_def)
  from chunk_loop_text_inv[OF this, of segments vid chunk_duration]
  have inv: "text_inv (map (\<lambda>s. strip (seg_text s)) segments) (chunk_loop vid chunk_duration segments ?init)"
    by simp
  obtain chs buf cs where r: "chunk_loop vid chunk_duration segments ?init = (chs, buf, cs)"
    by (cases "chunk_loop vid chunk_duration segments ?init")
  with inv show ?thesis
    by (auto simp: chunk_transcript_def text_inv_def)
qed

subsection \<open>Over-long segments\<close>

text \<open>
  C7 (as amended).  When both the start times and the end times of the segments are
  non-decreasing, a segment \<open>s\<close> longer than \<open>chunk_duration\<close> is a chunk of its own: the
  output is the chs of the segments before \<open>s\<close> (the last of them closed at the start of
  \<open>s\<close>), then one chunk holding the trimmed text of \<open>s\<close> alone, then the chs of the
  segments after \<open>s\<close>.
\<close>

theorem long_segment_alone:
  assumes starts: "sorted (map seg_start segments)"
    and ends: "sorted (map seg_end segments)"
    and split: "segments = pre @ s # post"
    and long: "seg_end s - seg_start s > chunk_duration"
  shows "chunk_transcript segments vid chunk_duration =
           (if pre = [] then []
            else butlast (chunk_transcript pre vid chunk_duration)
                   @ [(last (chunk_transcript pre vid chunk_duration))\<lparr>end_time := seg_start s\<rparr>])
           @ [\<lparr>video_id = vid, start_time = seg_start s,
                end_time = (if post = [] then seg_end s else seg_start (hd post)),
                chunk_text = strip (seg_text s), embedding = None\<rparr>]
           @ chunk_transcript post vid chunk_duration"
    (is "_ = ?A @ [?c] @ _")
proof -
  let ?cd = chunk_duration
  let ?init = "([], [], seg_start (hd segments)) :: TranscriptChunk list \<times> string list \<times> real"
  have ne: "segments \<noteq> []" using split by simp
  \<comment> \<open>the state once the long segment has been read\<close>
  have after_s: "chunk_loop vid ?cd (pre @ [s]) ?init = (?A, [strip (seg_text s)], seg_start s)"
  proof (cases "pre = []")
    case True
    with split show ?thesis by simp
  next
    case False
    obtain ch buf cs where r:
      "chunk_loop vid ?cd pre ([], [], seg_start (hd pre)) = (ch, buf, cs)"
      by (cases "chunk_loop vid ?cd pre ([], [], seg_start (hd pre))")
    from chunk_loop_buffer_nonempty[of pre "([], [], seg_start (hd pre))" vid ?cd] False r
    have buf: "buf \<noteq> []" by simp
    from chunk_loop_start_cases[of vid ?cd pre "([], [], seg_start (hd pre))"] r False
    have "cs \<in> seg_start ` set pre" by (cases pre) auto
    then obtain p where p: "p \<in> set pre" "cs = seg_start p" by auto
    have "sorted (map seg_start (pre @ [s]))"
      using starts split by (simp add: sorted_append)
    from sorted_map_le_last[OF this, of p] p have "cs \<le> seg_start s" by simp
    with long have flush: "seg_end s - cs > ?cd" by simp
    have hd: "hd segments = hd pre" using split False by simp
    have A: "?A = ch @ [\<lparr>video_id = vid, start_time = cs, end_time = seg_start s,
                           chunk_text = space_join buf, embedding = None\<rparr>]"
      using False chunk_transcript_unfold[OF False r] by simp
    show ?thesis
      unfolding chunk_loop_append hd r A using flush buf by simp
  qed
  show ?thesis
  proof (cases post)
    case Nil
    with split have seg: "segments = pre @ [s]" by simp
    from after_s seg
    have "chunk_loop vid ?cd segments ?init = (?A, [strip (seg_text s)], seg_start s)" by simp
    from chunk_transcript_unfold[OF ne this] Nil seg show ?thesis
      by (simp add: chunk_transcript_def)
  next
    case (Cons t post')
    obtain ch' buf' cs' where r':
      "chunk_loop vid ?cd post ([], [], seg_start (hd post)) = (ch', buf', cs')"
      by (cases "chunk_loop vid ?cd post ([], [], seg_start (hd post))")
    then have r'': "chunk_loop vid ?cd post' ([], [strip (seg_text t)], seg_start t) = (ch', buf', cs')"
      using Cons by simp
    have post_ne: "post \<noteq> []" using Cons by simp
    have "sorted (map seg_end (s # t # post'))"
      using ends split Cons by (simp add: sorted_append)
    then have "seg_end s \<le> seg_end t" by simp
    with long have flush: "seg_end t - seg_start s > ?cd" by simp
    have seg: "segments = (pre @ [s]) @ t # post'" using split Cons by simp
    have "chunk_loop vid ?cd segments st
            = chunk_loop vid ?cd (t # post') (chunk_loop vid ?cd (pre @ [s]) st)" for st
      by (simp only: seg chunk_loop_append)
    then have "chunk_loop vid ?cd segments ?init =
            chunk_loop vid ?cd (t # post') (?A, [strip (seg_text s)], seg_start s)"
      by (simp only: after_s)
    also have "\<dots> = chunk_loop vid ?cd post' ((?A @ [?c]) @ [], [strip (seg_text t)], seg_start t)"
      using flush Cons by simp
    also have "\<dots> = ((?A @ [?c]) @ ch', buf', cs')"
      unfolding chunk_loop_prefix r'' by simp
    finally have whole: "chunk_loop vid ?cd segments ?init = ((?A @ [?c]) @ ch', buf', cs')" .
    have last: "last segments = last post" using split Cons by simp
    show ?thesis
      unfolding chunk_transcript_unfold[OF ne whole] chunk_transcript_unfold[OF post_ne r'] last
      by simp
  qed
qed

text \<open>With non-decreasing starts only, a short segment nested inside the long first one is
  buffered into the same chunk.\<close>

theorem long_segment_alone_counterexample:
  "sorted (map seg_start nested_segments)
   \<and> seg_end (nested_segments ! 0) - seg_start (nested_segments ! 0) > 30
   \<and> chunk_transcript nested_segments ''v'' 30
        = [\<lparr>video_id = ''v'', start_time = 0, end_time = 2, chunk_text = ''long b'',
             embedding = None\<rparr>]"
  by (simp add: nested_segments_def chunk_transcript_def strip_def is_space_def)

theorem long_segment_alone_witness:
  "sorted (map seg_start long_segments) \<and> sorted (map seg_end long_segments)
   \<and> seg_end (long_segments ! 1) - seg_start (long_segments ! 1) > 30
   \<and> chunk_transcript long_segments ''v'' 30 =
       [\<lparr>video_id = ''v'', start_time = 0, end_time = 5, chunk_text = ''intro'', embedding = None\<rparr>,
        \<lparr>video_id = ''v'', start_time = 5, end_time = 100, chunk_text = ''long'', embedding = None\<rparr>,
        \<lparr>video_id = ''v'', start_time = 100, end_time = 105, chunk_text = ''outro'', embedding = None\<rparr>]"
proof -
  have split: "long_segments = [\<lparr>seg_start = 0, seg_end = 5, seg_text = '' intro''\<rparr>]
                 @ \<lparr>seg_start = 5, seg_end = 100, seg_text = ''long ''\<rparr>
                 # [\<lparr>seg_start = 100, seg_end = 105, seg_text = ''outro''\<rparr>]"
    by (simp add: long_segments_def)
  have starts: "sorted (map seg_start long_segments)" by (simp add: long_segments_def)
  have ends: "sorted (map seg_end long_segments)" by (simp add: long_segments_def)
  have long: "seg_end \<lparr>seg_start = 5, seg_end = 100, seg_text = ''long ''\<rparr>
                - seg_start \<lparr>seg_start = 5, seg_end = 100, seg_text = ''long ''\<rparr> > (30::real)"
    by simp
  from long_segment_alone[OF starts ends split long, of "''v''"] starts ends
  show ?thesis
    by (simp add: long_segments_def chunk_transcript_def strip_def is_space_def)
qed

subsection \<open>Chunks are well-ordered in time\<close>

text \<open>
  C9.  When start times are non-decreasing and every segment ends no earlier than it starts,
  every chunk produced by \<open>chunk_transcript\<close> has \<open>start_time \<le> end_time\<close>.
\<close>

theorem chunk_transcript_start_le_end:
  assumes "sorted (map seg_start segments)"
    and "\<forall>s \<in> set segments. seg_start s \<le> seg_end s"
  shows "\<forall>c \<in> set (chunk_transcript segments vid chunk_duration). start_time c \<le> end_time c"
proof (cases "segments = []")
  case True
  then show ?thesis by (simp add: chunk_transcript_def)
next
  case False
  let ?init = "([], [], seg_start (hd segments)) :: TranscriptChunk list \<times> string list \<times> real"
  obtain chs buf cs where r: "chunk_loop vid chunk_duration segments ?init = (chs, buf, cs)"
    by (cases "chunk_loop vid chunk_duration segments ?init")
  have hd_le: "\<forall>s \<in> set segments. seg_start (hd segments) \<le> seg_start s"
    using assms(1) False by (cases segments) auto
  from chunk_loop_ordered[of ?init segments vid chunk_duration] hd_le assms(1) r
  have ch: "\<forall>c \<in> set chs. start_time c \<le> end_time c"
    by auto
  from chunk_loop_start_cases[of vid chunk_duration segments ?init] r False
  have "cs \<in> seg_start ` set segments" by (cases segments) auto
  then obtain s where s: "s \<in> set segments" "cs = seg_start s" by auto
  have "seg_start s \<le> seg_start (last segments)"
    using sorted_map_le_last[OF assms(1) s(1)] .
  also have "\<dots> \<le> seg_end (last segments)"
    using assms(2) False by simp
  finally have "cs \<le> seg_end (last segments)" using s by simp
  with ch show ?thesis
    unfolding chunk_transcript_unfold[OF False r] by auto
qed

theorem chunk_transcript_start_le_end_witness:
  "sorted (map seg_start example_segments)
   \<and> list_all (\<lambda>s. seg_start s \<le> seg_end s) example_segments
   \<and> chunk_transcript example_segments ''v'' 30 \<noteq> []
   \<and> list_all (\<lambda>c. start_time c \<le> end_time c) (chunk_transcript example_segments ''v'' 30)"
proof -
  have a: "sorted (map seg_start example_segments)" by (simp add: example_segments_def)
  have b: "\<forall>s \<in> set example_segments. seg_start s \<le> seg_end s"
    by (simp add: example_segments_def)
  have c: "chunk_transcript example_segments ''v'' 30 \<noteq> []"
    by (simp add: example_segments_def chunk_transcript_def)
  from chunk_transcript_start_le_end[OF a b, of "''v''" 30] a b c show ?thesis
    by (simp add: list_all_iff)
qed

section \<open>Properties of the search engine\<close>

subsection \<open>Library and loop facts\<close>

lemma collect_results_length:
  "collect_results cs hits = Inr rs \<Longrightarrow> length rs = length hits"
  by (induction cs hits arbitrary: rs rule: collect_results.induct)
     (auto split: sum.splits)

lemma py_nth_mem: "py_nth xs i = Inr x \<Longrightarrow> x \<in> set xs"
  by (auto simp: py_nth_def split: if_splits)

lemma collect_results_video_id:
  assumes all: "\<forall>c \<in> set cs. video_id c = vid"
  shows "collect_results cs hits = Inr rs \<Longrightarrow> \<forall>r \<in> set rs. res_video_id r = vid"
proof (induction hits arbitrary: rs)
  case Nil
  then show ?case by simp
next
  case (Cons h hits)
  obtain score idx where h: "h = (score, idx)" by (cases h)
  from Cons.prems h obtain c rs' where c: "py_nth cs idx = Inr c"
    and rest: "collect_results cs hits = Inr rs'" and rs: "rs = make_result c score # rs'"
    by (auto split: sum.splits)
  from py_nth_mem[OF c] all have "video_id c = vid" by simp
  with Cons.IH[OF rest] rs show ?case by (simp add: make_result_def)
qed

lemma index_search_length:
  "index_search ix q k = Inr hits \<Longrightarrow> length hits = nat k"
  by (auto simp: index_search_def split: if_splits)

lemma fold_max_Max:
  "xs \<noteq> [] \<Longrightarrow> fold max (tl xs) (hd xs) = Max (set (xs :: real list))"
  using Max.set_eq_fold[of "hd xs" "tl xs"] by simp

subsection \<open>The concrete engines\<close>

lemma mock_engine_eq:
  "mock_engine = \<lparr>embedding_model = one_hot_model, chunks = mock_chunks,
                   index = Some \<lparr>ix_d = 3, ix_xb = [[1, 0, 0], [0, 1, 0], [0, 0, 1]]\<rparr>,
                   dimension = Some 3\<rparr>"
  by (simp add: mock_engine_def add_chunks_def new_engine_def mock_chunks_def valid_chunks_of_def
        np_array_def index_add_def new_IndexFlatIP_def Let_def)

lemma misaligned_engine_eq:
  "misaligned_engine = \<lparr>embedding_model = one_hot_model,
                         chunks = [unembedded_chunk, embedded_chunk],
                         index = Some \<lparr>ix_d = 3, ix_xb = [[0, 1, 0]]\<rparr>,
                         dimension = Some 3\<rparr>"
  by (simp add: misaligned_engine_def add_chunks_def new_engine_def unembedded_chunk_def
        embedded_chunk_def valid_chunks_of_def np_array_def index_add_def new_IndexFlatIP_def Let_def)

lemma mixed_engine_eq:
  "mixed_engine = \<lparr>embedding_model = one_hot_model,
                    chunks = [embedded_chunk, unembedded_chunk],
                    index = Some \<lparr>ix_d = 3, ix_xb = [[0, 1, 0]]\<rparr>,
                    dimension = Some 3\<rparr>"
  by (simp add: mixed_engine_def add_chunks_def new_engine_def unembedded_chunk_def
        embedded_chunk_def valid_chunks_of_def np_array_def index_add_def new_IndexFlatIP_def Let_def)

lemma unembedded_engine_eq:
  "unembedded_engine = \<lparr>embedding_model = one_hot_model, chunks = [unembedded_chunk],
                         index = None, dimension = None\<rparr>"
  by (simp add: unembedded_engine_def add_chunks_def new_engine_def unembedded_chunk_def
        valid_chunks_of_def Let_def)

subsection \<open>Index and dimension are set together\<close>

lemma add_chunks_index_dimension:
  assumes "case dimension e of None \<Rightarrow> index e = None
           | Some D \<Rightarrow> (\<exists>ix. index e = Some ix \<and> ix_d ix = D)"
  shows "case dimension (snd (add_chunks e cs)) of None \<Rightarrow> index (snd (add_chunks e cs)) = None
         | Some D \<Rightarrow> (\<exists>ix. index (snd (add_chunks e cs)) = Some ix \<and> ix_d ix = D)"
  using assms
  by (auto simp: add_chunks_def Let_def new_IndexFlatIP_def index_add_def
           split: option.splits sum.splits if_splits)

lemma reachable_index_dimension:
  "reachable e \<Longrightarrow>
     (case dimension e of None \<Rightarrow> index e = None
      | Some D \<Rightarrow> (\<exists>ix. index e = Some ix \<and> ix_d ix = D))"
proof (induction rule: reachable.induct)
  case (reachable_new model)
  show ?case by (simp add: new_engine_def)
next
  case (reachable_add e cs)
  from reachable_add.IH show ?case by (rule add_chunks_index_dimension)
qed

subsection \<open>Insertion\<close>

text \<open>What insertion does keep: the whole batch is appended to the corpus, the dimension
  is fixed by the first embedded chunk and never changes afterwards, and on success the
  vectors of the embedded chunks are appended to the index in their order in the batch.\<close>

lemma add_chunks_corpus:
  "chunks (snd (add_chunks e cs)) = chunks e @ cs"
  by (simp add: add_chunks_def Let_def split: sum.splits option.splits)

lemma add_chunks_fixes_dimension:
  assumes "index e = None" and "valid_chunks_of cs \<noteq> []"
  shows "dimension (snd (add_chunks e cs))
           = Some (length (the (embedding (hd (valid_chunks_of cs)))))"
proof -
  from assms(2) have "cs \<noteq> []" by (auto simp: valid_chunks_of_def)
  with assms show ?thesis
    by (simp add: add_chunks_def Let_def split: sum.splits option.splits)
qed

lemma add_chunks_keeps_dimension:
  "index e \<noteq> None \<Longrightarrow> dimension (snd (add_chunks e cs)) = dimension e"
  by (auto simp: add_chunks_def Let_def split: sum.splits option.splits)

lemma add_chunks_vectors_in_order:
  assumes "fst (add_chunks e cs) = Inr ()"
  shows "(case index (snd (add_chunks e cs)) of None \<Rightarrow> []  | Some ix \<Rightarrow> ix_xb ix)
           = (case index e of None \<Rightarrow> [] | Some ix \<Rightarrow> ix_xb ix)
             @ map (\<lambda>chunk. the (embedding chunk)) (valid_chunks_of cs)"
proof (cases "cs \<noteq> [] \<and> valid_chunks_of cs \<noteq> []")
  case False
  then have "valid_chunks_of cs = []" by (auto simp: valid_chunks_of_def)
  with False show ?thesis
    by (auto simp: add_chunks_def Let_def)
next
  case True
  with assms show ?thesis
    by (auto simp: add_chunks_def Let_def np_array_def index_add_def new_IndexFlatIP_def
             split: sum.splits option.splits if_splits)
qed

text \<open>
  C1.  Insertion is meant to keep the corpus and the vector index in lockstep, the i-th
  vector belonging to the i-th chunk.  \<open>add_chunks\<close> appends every chunk of the batch to the
  corpus, also those without an embedding, while only the embedded ones reach the index.
  Inserting an unembedded chunk followed by an embedded one succeeds and leaves a corpus of
  two chunks and an index of one vector: vector 0 is the embedding of chunk 1, chunk 0 has no
  embedding, and a search that hits vector 0 reports chunk 0.
\<close>

theorem add_chunks_misaligned:
  "fst (add_chunks (new_engine one_hot_model) [unembedded_chunk, embedded_chunk]) = Inr ()
   \<and> chunks misaligned_engine = [unembedded_chunk, embedded_chunk]
   \<and> index misaligned_engine = Some \<lparr>ix_d = 3, ix_xb = [[0, 1, 0]]\<rparr>
   \<and> embedding (chunks misaligned_engine ! 0) = None
   \<and> embedding (chunks misaligned_engine ! 1) = Some [0, 1, 0]
   \<and> fst (search misaligned_engine ''linear regression'' 1) = Inr [make_result unembedded_chunk 1]"
proof -
  have "fst (add_chunks (new_engine one_hot_model) [unembedded_chunk, embedded_chunk]) = Inr ()"
    by (simp add: add_chunks_def new_engine_def unembedded_chunk_def
        embedded_chunk_def valid_chunks_of_def np_array_def index_add_def new_IndexFlatIP_def Let_def)
  moreover have "embedding (chunks misaligned_engine ! 0) = None"
    "embedding (chunks misaligned_engine ! 1) = Some [0, 1, 0]"
    by (simp_all add: misaligned_engine_eq unembedded_chunk_def embedded_chunk_def)
  moreover have "fst (search misaligned_engine ''linear regression'' 1)
                   = Inr [make_result unembedded_chunk 1]"
    by (simp add: misaligned_engine_eq search_def index_search_def one_hot_model_def
          inner_product_def py_nth_def)
  ultimately show ?thesis by (simp add: misaligned_engine_eq)
qed

text \<open>In a reachable state whose dimension \<open>D\<close> is fixed, a batch that holds a chunk with an
  embedding of another length makes \<open>add_chunks\<close> raise (the index library's assertion on the
  row length, or numpy's \<^verbatim>\<open>ValueError\<close> when the batch mixes lengths); no vector of the batch
  reaches the index, but the corpus list has already been extended with the batch.\<close>

lemma add_chunks_dimension_mismatch:
  assumes reach: "reachable e"
    and dim: "dimension e = Some D"
    and mem: "chunk \<in> set cs"
    and emb: "embedding chunk = Some v"
    and len: "length v \<noteq> D"
  shows "(fst (add_chunks e cs) = Inl AssertionError \<or> fst (add_chunks e cs) = Inl ValueError)
         \<and> index (snd (add_chunks e cs)) = index e
         \<and> dimension (snd (add_chunks e cs)) = dimension e
         \<and> chunks (snd (add_chunks e cs)) = chunks e @ cs"
proof -
  from reachable_index_dimension[OF reach] dim
  obtain ix where ix: "index e = Some ix" "ix_d ix = D" by auto
  let ?valid = "valid_chunks_of cs"
  let ?rows = "map (\<lambda>chunk. the (embedding chunk)) ?valid"
  from mem emb have valid: "chunk \<in> set ?valid" by (simp add: valid_chunks_of_def)
  with mem have ne: "cs \<noteq> []" "?valid \<noteq> []" by auto
  from valid emb have v: "v \<in> set ?rows" by force
  show ?thesis
  proof (cases "np_array ?rows")
    case (Inl err)
    then have "err = ValueError" by (auto simp: np_array_def split: if_splits)
    with Inl ne ix show ?thesis by (simp add: add_chunks_def Let_def)
  next
    case (Inr embeddings)
    then have same: "list_all (\<lambda>r. length r = length (hd ?rows)) ?rows" and e: "embeddings = ?rows"
      by (auto simp: np_array_def split: if_splits)
    from same v have "length (hd embeddings) = length v" by (auto simp: e list_all_iff)
    with len ix have "index_add ix embeddings = Inl AssertionError" by (simp add: index_add_def)
    with Inr ne ix show ?thesis by (simp add: add_chunks_def Let_def)
  qed
qed

text \<open>
  C4.  Inserting a chunk whose embedding has a length other than the fixed dimension is meant
  to fail instead of storing the chunk.  With dimension 3 fixed by the mock chunks, inserting
  a chunk with a vector of length 2 does raise (the library's \<^verbatim>\<open>AssertionError\<close>) and the
  index is untouched, but the chunk has been appended to the corpus before the raising call
  and stays there: the engine then lists its video and summarises it.
\<close>

theorem add_chunks_mismatch_stores_chunk:
  "dimension mock_engine = Some 3
   \<and> embedding short_chunk = Some [1, 0]
   \<and> fst (add_chunks mock_engine [short_chunk]) = Inl AssertionError
   \<and> index (snd (add_chunks mock_engine [short_chunk])) = index mock_engine
   \<and> chunks (snd (add_chunks mock_engine [short_chunk])) = mock_chunks @ [short_chunk]
   \<and> fst (get_all_videos (snd (add_chunks mock_engine [short_chunk])))
        = {''video_001'', ''video_003''}
   \<and> map_option chunk_count
        (fst (get_video_summary (snd (add_chunks mock_engine [short_chunk])) ''video_003''))
        = Some 1"
proof -
  have after: "add_chunks mock_engine [short_chunk]
                 = (Inl AssertionError, mock_engine\<lparr>chunks := mock_chunks @ [short_chunk]\<rparr>)"
    by (simp add: mock_engine_eq add_chunks_def short_chunk_def valid_chunks_of_def
          np_array_def index_add_def Let_def)
  have "fst (get_all_videos (mock_engine\<lparr>chunks := mock_chunks @ [short_chunk]\<rparr>))
          = {''video_001'', ''video_003''}"
    by (auto simp: get_all_videos_def mock_chunks_def short_chunk_def)
  moreover have "map_option chunk_count
        (fst (get_video_summary (mock_engine\<lparr>chunks := mock_chunks @ [short_chunk]\<rparr>) ''video_003''))
        = Some 1"
    by (simp add: get_video_summary_def mock_chunks_def short_chunk_def Let_def)
  ultimately show ?thesis
    unfolding after by (simp add: mock_engine_eq short_chunk_def)
qed

subsection \<open>Global search\<close>

lemma search_empty_corpus: "chunks e = [] \<Longrightarrow> search e query top_k = (Inr [], e)"
  by (simp add: search_def)

lemma search_returns_top_k:
  "chunks e \<noteq> [] \<Longrightarrow> index e \<noteq> None \<Longrightarrow> fst (search e query top_k) = Inr rs
     \<Longrightarrow> length rs = nat top_k"
  by (auto simp: search_def split: sum.splits
           dest!: collect_results_length index_search_length)

text \<open>
  C2.  A search is meant to return \<open>min k n\<close> results when \<open>n\<close> chunks are indexed.  With the
  three mock chunks indexed and \<open>top_k = 5\<close>, \<open>search\<close> returns five results: the best hit
  comes first, and the library pads its answer with the label \<open>-1\<close>, which the result loop
  reads as the last chunk of the corpus, so places four and five report the last chunk again
  with the lowest float as its score.  With \<open>top_k = 0\<close> the library's assertion fails and
  the search raises.
\<close>

theorem search_pads_to_top_k:
  "length (chunks mock_engine) = 3
   \<and> map_option (\<lambda>ix. length (ix_xb ix)) (index mock_engine) = Some 3
   \<and> map_sum id length (fst (search mock_engine ''linear regression'' 5)) = Inr 5
   \<and> map_sum id (take 1) (fst (search mock_engine ''linear regression'' 5))
        = Inr [make_result (mock_chunks ! 1) 1]
   \<and> map_sum id (drop 3) (fst (search mock_engine ''linear regression'' 5))
        = Inr [make_result (mock_chunks ! 2) FLT_LOWEST, make_result (mock_chunks ! 2) FLT_LOWEST]
   \<and> fst (search mock_engine ''linear regression'' 0) = Inl AssertionError"
proof -
  have "fst (search mock_engine ''linear regression'' 5) =
       Inr [make_result (mock_chunks ! 1) 1,
            make_result (mock_chunks ! 2) 0,
            make_result (mock_chunks ! 0) 0,
            make_result (mock_chunks ! 2) FLT_LOWEST,
            make_result (mock_chunks ! 2) FLT_LOWEST]"
    by (simp add: mock_engine_eq search_def index_search_def one_hot_model_def
          inner_product_def py_nth_def mock_chunks_def upt_rec numeral_eq_Suc)
  moreover have "fst (search mock_engine ''linear regression'' 0) = Inl AssertionError"
    by (simp add: mock_engine_eq search_def index_search_def one_hot_model_def mock_chunks_def)
  ultimately show ?thesis by (simp add: mock_engine_eq mock_chunks_def)
qed

subsection \<open>Search within one video\<close>

lemma search_by_video_same_video:
  "fst (search_by_video e vid query top_k) = Inr rs \<Longrightarrow> \<forall>r \<in> set rs. res_video_id r = vid"
proof -
  assume a: "fst (search_by_video e vid query top_k) = Inr rs"
  let ?vc = "filter (\<lambda>chunk. video_id chunk = vid) (chunks e)"
  have all: "\<forall>c \<in> set ?vc. video_id c = vid" by simp
  show ?thesis
  proof (cases "?vc = []")
    case True
    with a show ?thesis by (simp add: search_by_video_def)
  next
    case False
    with a obtain hits where "collect_results ?vc hits = Inr rs"
      by (auto simp: search_by_video_def Let_def split: option.splits sum.splits if_splits)
    from collect_results_video_id[OF all this] show ?thesis .
  qed
qed

lemma search_by_video_unknown:
  "filter (\<lambda>chunk. video_id chunk = vid) (chunks e) = []
     \<Longrightarrow> search_by_video e vid query top_k = (Inr [], e)"
  by (simp add: search_by_video_def)

text \<open>When the video has an embedded chunk and its vectors have the engine's dimension, the
  scoped search is the global search over the filtered corpus.\<close>

lemma search_by_video_filter_first:
  assumes dim: "dimension e = Some D"
    and ne: "valid_chunks_of (filter (\<lambda>chunk. video_id chunk = vid) (chunks e)) \<noteq> []"
    and len: "\<forall>c \<in> set (valid_chunks_of (filter (\<lambda>chunk. video_id chunk = vid) (chunks e))).
                length (the (embedding c)) = D"
  shows "fst (search_by_video e vid query top_k) = query_scoped_spec e vid query top_k"
proof -
  let ?vc = "filter (\<lambda>chunk. video_id chunk = vid) (chunks e)"
  let ?valid = "valid_chunks_of ?vc"
  let ?rows = "map (\<lambda>chunk. the (embedding chunk)) ?valid"
  have vc: "?vc \<noteq> []"
  proof
    assume "?vc = []"
    then have "?valid = []" by (simp only: valid_chunks_of_def filter.simps)
    with ne show False by simp
  qed
  from ne len have hd: "length (the (embedding (hd ?valid))) = D" by simp
  from ne len have np: "np_array ?rows = Inr ?rows"
    by (simp add: np_array_def list_all_iff hd_map)
  from ne hd have add: "index_add (new_IndexFlatIP D) ?rows
                          = Inr \<lparr>ix_d = D, ix_xb = ?rows\<rparr>"
    by (simp add: index_add_def new_IndexFlatIP_def hd_map)
  have fresh: "snd (add_chunks (new_engine (embedding_model e)) ?vc)
                 = \<lparr>embedding_model = embedding_model e, chunks = ?vc,
                    index = Some \<lparr>ix_d = D, ix_xb = ?rows\<rparr>, dimension = Some D\<rparr>"
    using vc ne np add hd by (simp add: add_chunks_def new_engine_def Let_def)
  show ?thesis
    unfolding query_scoped_spec_def fresh
    using vc ne np add dim
    by (simp add: search_by_video_def search_def Let_def split: sum.splits)
qed

text \<open>
  C3.  The scoped search is meant to equal the global search run over the corpus filtered to
  the video.  For a video whose chunks carry no embedding it does not: the global search over
  the filtered corpus finds no index and returns the empty sequence, while
  \<open>search_by_video\<close> searches an empty temporary index and reports the video's last chunk
  \<open>top_k\<close> times with the lowest float as its score, or, when no dimension was ever fixed,
  raises \<^verbatim>\<open>TypeError\<close> on building the temporary index.
\<close>

theorem search_by_video_no_embedding:
  "fst (search_by_video mixed_engine ''video_002'' ''deep learning'' 2)
     = Inr [make_result unembedded_chunk FLT_LOWEST, make_result unembedded_chunk FLT_LOWEST]
   \<and> query_scoped_spec mixed_engine ''video_002'' ''deep learning'' 2 = Inr []
   \<and> fst (search_by_video unembedded_engine ''video_002'' ''deep learning'' 2) = Inl TypeError
   \<and> query_scoped_spec unembedded_engine ''video_002'' ''deep learning'' 2 = Inr []
   \<and> fst (search unembedded_engine ''deep learning'' 2) = Inr []"
proof -
  have "fst (search_by_video mixed_engine ''video_002'' ''deep learning'' 2)
     = Inr [make_result unembedded_chunk FLT_LOWEST, make_result unembedded_chunk FLT_LOWEST]"
    by (simp add: mixed_engine_eq search_by_video_def unembedded_chunk_def embedded_chunk_def
          valid_chunks_of_def new_IndexFlatIP_def index_search_def one_hot_model_def py_nth_def
          numeral_eq_Suc Let_def)
  moreover have "query_scoped_spec mixed_engine ''video_002'' ''deep learning'' 2 = Inr []"
    by (simp add: mixed_engine_eq query_scoped_spec_def unembedded_chunk_def embedded_chunk_def
          add_chunks_def new_engine_def valid_chunks_of_def search_def Let_def)
  moreover have "fst (search_by_video unembedded_engine ''video_002'' ''deep learning'' 2) = Inl TypeError"
    by (simp add: unembedded_engine_eq search_by_video_def unembedded_chunk_def Let_def)
  moreover have "query_scoped_spec unembedded_engine ''video_002'' ''deep learning'' 2 = Inr []"
    by (simp add: unembedded_engine_eq query_scoped_spec_def unembedded_chunk_def
          add_chunks_def new_engine_def valid_chunks_of_def search_def Let_def)
  moreover have "fst (search unembedded_engine ''deep learning'' 2) = Inr []"
    by (simp add: unembedded_engine_eq search_def)
  ultimately show ?thesis by simp
qed

subsection \<open>Video summaries\<close>

text \<open>
  C8.  If the corpus holds at least one chunk of the video, \<open>get_video_summary\<close> returns a
  record whose \<open>total_duration\<close> is the maximum \<open>end_time\<close> over the video's chunks and whose
  \<open>chunk_count\<close> is their number; if it holds none, the result is absent.
\<close>

theorem get_video_summary_correct:
  "(filter (\<lambda>chunk. video_id chunk = vid) (chunks e) \<noteq> [] \<longrightarrow>
      fst (get_video_summary e vid) =
        Some \<lparr>sum_video_id = vid,
              total_duration = Max (set (map end_time (filter (\<lambda>chunk. video_id chunk = vid) (chunks e)))),
              chunk_count = length (filter (\<lambda>chunk. video_id chunk = vid) (chunks e)),
              duration_formatted = format_timestamp
                (Max (set (map end_time (filter (\<lambda>chunk. video_id chunk = vid) (chunks e)))))\<rparr>)
   \<and> (filter (\<lambda>chunk. video_id chunk = vid) (chunks e) = [] \<longrightarrow>
        fst (get_video_summary e vid) = None)"
proof -
  let ?vc = "filter (\<lambda>chunk. video_id chunk = vid) (chunks e)"
  have "?vc \<noteq> [] \<Longrightarrow> fold max (tl (map end_time ?vc)) (hd (map end_time ?vc))
                          = Max (set (map end_time ?vc))"
    by (rule fold_max_Max) simp
  then show ?thesis
    by (simp add: get_video_summary_def Let_def)
qed

text \<open>The scenario of the three mock chunks of \<^verbatim>\<open>video_001\<close> spanning 0--30, 30--60 and
  60--90, and an unknown video.\<close>

theorem get_video_summary_correct_witness:
  "filter (\<lambda>chunk. video_id chunk = ''video_001'') (chunks mock_engine) \<noteq> []
   \<and> filter (\<lambda>chunk. video_id chunk = ''video_404'') (chunks mock_engine) = []
   \<and> map_option total_duration (fst (get_video_summary mock_engine ''video_001'')) = Some 90
   \<and> map_option chunk_count (fst (get_video_summary mock_engine ''video_001'')) = Some 3
   \<and> fst (get_video_summary mock_engine ''video_404'') = None"
proof -
  have f: "filter (\<lambda>chunk. video_id chunk = ''video_001'') (chunks mock_engine) = mock_chunks"
    by (simp add: mock_engine_eq mock_chunks_def)
  have g: "filter (\<lambda>chunk. video_id chunk = ''video_404'') (chunks mock_engine) = []"
    by (simp add: mock_engine_eq mock_chunks_def)
  have m: "Max (set (map end_time mock_chunks)) = 90" "length mock_chunks = 3" "mock_chunks \<noteq> []"
    by (simp_all add: mock_chunks_def)
  from get_video_summary_correct[of "''video_001''" mock_engine]
       get_video_summary_correct[of "''video_404''" mock_engine]
  show ?thesis
    unfolding f g using m by simp
qed

subsection \<open>Queries leave the engine as it was\<close>

text \<open>
  C10.  \<open>search\<close>, \<open>search_by_video\<close>, \<open>get_video_summary\<close> and \<open>get_all_videos\<close> return the
  engine state they were given (chunk list, vector index and dimension), on every input and
  also when they raise.
\<close>

theorem queries_preserve_state:
  "snd (search e query top_k) = e
   \<and> snd (search_by_video e vid query top_k) = e
   \<and> snd (get_video_summary e vid) = e
   \<and> snd (get_all_videos e) = e"
  by (simp add: search_def search_by_video_def get_video_summary_def get_all_videos_def Let_def
           split: option.splits sum.splits)

end
